theory Spec2Isabelle
  imports Complex_Main
begin

section \<open>Python values used by \<open>main.py\<close>\<close>

text \<open>
  The exceptions that the modelled code can meet. All of them derive from Python's
  \<open>Exception\<close>. \<open>External\<close> stands for whatever a collaborator (the arXiv client, PyMuPDF,
  spaCy) raises; its argument is the message.
\<close>

datatype exn =
    ValueError
  | KeyError string
  | AttributeError
  | JSONDecodeError
  | UnicodeDecodeError
  | UnicodeEncodeError
  | FileNotFoundError
  | RecursionError
  | External string

text \<open>
  \<open>range(start, stop, step)\<close>: a zero step raises \<open>ValueError\<close> when the range object is
  built; a positive step counts up while below \<open>stop\<close>, a negative one counts down while
  above it.
\<close>

function range_up :: "int \<Rightarrow> int \<Rightarrow> int \<Rightarrow> int list" where
  "range_up i stop step =
     (if 0 < step \<and> i < stop then i # range_up (i + step) stop step else [])"
  by pat_completeness auto
termination
  by (relation "measure (\<lambda>(i, stop, step). nat (stop - i))") auto

function range_down :: "int \<Rightarrow> int \<Rightarrow> int \<Rightarrow> int list" where
  "range_down i stop step =
     (if step < 0 \<and> stop < i then i # range_down (i + step) stop step else [])"
  by pat_completeness auto
termination
  by (relation "measure (\<lambda>(i, stop, step). nat (i - stop))") auto

definition py_range :: "int \<Rightarrow> int \<Rightarrow> int \<Rightarrow> exn + int list" where
  "py_range start stop step =
     (if step = 0 then Inl ValueError
      else if 0 < step then Inr (range_up start stop step)
      else Inr (range_down start stop step))"

text \<open>
  \<open>xs[i:j]\<close>: a negative bound counts from the end, and both bounds are clamped to
  \<open>0 .. len(xs)\<close>; a slice never raises.
\<close>

definition slice_index :: "nat \<Rightarrow> int \<Rightarrow> nat" where
  "slice_index n i = nat (if i < 0 then max 0 (int n + i) else min i (int n))"

definition py_slice :: "'a list \<Rightarrow> int \<Rightarrow> int \<Rightarrow> 'a list" where
  "py_slice xs i j =
     (let a = slice_index (length xs) i; b = slice_index (length xs) j
      in take (b - a) (drop a xs))"

section \<open>Chunking (lines 75--76 of \<open>create_triples_from_text\<close>)\<close>

text \<open>
  \<open>for i in range(0, len(text), chunk_size): chunk = text[i:i + chunk_size]\<close>.
  The text is a list of code points, whatever their type.
\<close>

definition chunks :: "'a list \<Rightarrow> int \<Rightarrow> exn + 'a list list" where
  "chunks text chunk_size =
     (case py_range 0 (int (length text)) chunk_size of
        Inl e \<Rightarrow> Inl e
      | Inr starts \<Rightarrow> Inr (map (\<lambda>i. py_slice text i (i + chunk_size)) starts))"

section \<open>Parsed sentences and triples\<close>

text \<open>
  What the code reads of a spaCy token: \<open>tok.text\<close>, \<open>tok.dep_\<close>, \<open>tok.lemma_\<close> and the
  tokens of \<open>tok.subtree\<close> in document order (the token itself is one of them; of these
  the code reads the text only); of a sentence: its tokens and \<open>sent.root\<close>.
\<close>

datatype token =
  Token (tok_text: string) (tok_dep: string) (tok_lemma: string) (subtree: "token list")

record sentence =
  tokens :: "token list"
  root :: token

text \<open>The dictionary literal of lines 87--93, with its five fixed keys.\<close>

record triple =
  subject :: string
  predicate :: string
  object :: string
  source_title :: string
  source_url :: string

text \<open>\<open>sub in s\<close> on strings: \<open>sub\<close> occurs in \<open>s\<close> as a contiguous run.\<close>

fun str_contains :: "string \<Rightarrow> string \<Rightarrow> bool" where
  "str_contains sub [] = (sub = [])"
| "str_contains sub (c # cs) = (take (length sub) (c # cs) = sub \<or> str_contains sub cs)"

text \<open>\<open>sep.join(parts)\<close>.\<close>

fun join :: "string \<Rightarrow> string list \<Rightarrow> string" where
  "join sep [] = []"
| "join sep [x] = x"
| "join sep (x # y # ys) = x @ sep @ join sep (y # ys)"

text \<open>\<open>d[k]\<close> on a dictionary raises \<open>KeyError\<close> for a missing key.\<close>

definition getitem :: "(string \<rightharpoonup> string) \<Rightarrow> string \<Rightarrow> exn + string" where
  "getitem d k = (case d k of None \<Rightarrow> Inl (KeyError k) | Some v \<Rightarrow> Inr v)"

text \<open>
  A \<open>for\<close> loop that extends a local list with what its body yields for each element; the
  first exception leaves the loop and the list is lost with it.
\<close>

fun collect :: "('a \<Rightarrow> exn + 'b list) \<Rightarrow> 'a list \<Rightarrow> exn + 'b list" where
  "collect f [] = Inr []"
| "collect f (x # xs) =
     (case f x of
        Inl e \<Rightarrow> Inl e
      | Inr ys \<Rightarrow> (case collect f xs of Inl e \<Rightarrow> Inl e | Inr zs \<Rightarrow> Inr (ys @ zs)))"

section \<open>Triple extraction (lines 78--93 of \<open>create_triples_from_text\<close>)\<close>

definition subjects :: "sentence \<Rightarrow> token list" where
  "subjects sent = filter (\<lambda>tok. str_contains ''subj'' (tok_dep tok)) (tokens sent)"

definition objects :: "sentence \<Rightarrow> token list" where
  "objects sent = filter (\<lambda>tok. str_contains ''obj'' (tok_dep tok)) (tokens sent)"

text \<open>
  The body of the innermost loop, lines 85--93. The values of the dictionary literal are
  evaluated in the order written, so a missing \<open>'title'\<close> is reported before a missing
  \<open>'url'\<close>.
\<close>

definition make_triple :: "(string \<rightharpoonup> string) \<Rightarrow> token \<Rightarrow> token \<Rightarrow> token \<Rightarrow> exn + triple list" where
  "make_triple paper_info verb sub obj =
     (let subject_phrase = join '' '' (map tok_text (subtree sub));
          object_phrase = join '' '' (map tok_text (subtree obj))
      in case getitem paper_info ''title'' of
           Inl e \<Rightarrow> Inl e
         | Inr t \<Rightarrow>
             (case getitem paper_info ''url'' of
                Inl e \<Rightarrow> Inl e
              | Inr u \<Rightarrow>
                  Inr [\<lparr>subject = subject_phrase, predicate = tok_lemma verb,
                        object = object_phrase, source_title = t, source_url = u\<rparr>]))"

definition sentence_triples :: "(string \<rightharpoonup> string) \<Rightarrow> sentence \<Rightarrow> exn + triple list" where
  "sentence_triples paper_info sent =
     (if subjects sent \<noteq> [] \<and> objects sent \<noteq> []
      then collect (\<lambda>sub. collect (\<lambda>obj. make_triple paper_info (root sent) sub obj)
                                   (objects sent))
                   (subjects sent)
      else Inr [])"

definition extract_triples :: "(string \<rightharpoonup> string) \<Rightarrow> sentence list \<Rightarrow> exn + triple list" where
  "extract_triples paper_info sents = collect (sentence_triples paper_info) sents"

text \<open>
  The whole function. \<open>nlp\<close> is the spaCy pipeline held in \<open>self.nlp\<close>: it gives the
  sentences of a chunk, or raises.
\<close>

definition create_triples_from_text ::
  "(string \<Rightarrow> exn + sentence list) \<Rightarrow> string \<Rightarrow> (string \<rightharpoonup> string) \<Rightarrow> int \<Rightarrow> exn + triple list" where
  "create_triples_from_text nlp text paper_info chunk_size =
     (case chunks text chunk_size of
        Inl e \<Rightarrow> Inl e
      | Inr cs \<Rightarrow>
          collect (\<lambda>chunk. case nlp chunk of
                              Inl e \<Rightarrow> Inl e
                            | Inr sents \<Rightarrow> extract_triples paper_info sents) cs)"

section \<open>The persisted collection\<close>

text \<open>
  The values \<open>json.load\<close> can return. \<open>JSurrogate\<close> is a \<open>str\<close> that holds a lone surrogate:
  \<open>json.load\<close> returns one for an escape such as \<open>\ud800\<close>, and UTF-8 cannot encode it, so
  \<open>json.dump\<close> with \<open>ensure_ascii=False\<close> cannot write it to the file. Every other string
  is a list of 8-bit characters, each standing for the code point of that number.
\<close>

datatype json =
    JNull
  | JBool bool
  | JNumber int
  | JString string
  | JSurrogate
  | JArray "json list"
  | JObject "(string \<times> json) list"

primrec encodable :: "json \<Rightarrow> bool" where
  "encodable JNull = True"
| "encodable (JBool b) = True"
| "encodable (JNumber n) = True"
| "encodable (JString s) = True"
| "encodable JSurrogate = False"
| "encodable (JArray xs) = list_all id (map encodable xs)"
| "encodable (JObject kvs) = list_all snd (map (map_prod id encodable) kvs)"

text \<open>One dictionary of lines 87--93 as \<open>json.dump\<close> writes it, keys in insertion order.\<close>

definition triple_json :: "triple \<Rightarrow> json" where
  "triple_json t =
     JObject [(''subject'', JString (subject t)), (''predicate'', JString (predicate t)),
              (''object'', JString (object t)), (''source_title'', JString (source_title t)),
              (''source_url'', JString (source_url t))]"

text \<open>
  The file at \<open>OUTPUT_PATH\<close>, by what \<open>json.load\<close> does on it when it is opened as UTF-8
  text: its bytes are not UTF-8 (\<open>f.read()\<close> raises \<open>UnicodeDecodeError\<close>); its text is not
  JSON (\<open>JSONDecodeError\<close>; the empty file is such a text); the parser gives up on it
  with another exception (\<open>ValueError\<close> for an integer literal of more than 4300 digits,
  \<open>RecursionError\<close> for nesting too deep); or it holds a JSON value.
\<close>

datatype disk_file = Undecodable | Malformed | Rejected exn | Document json

definition json_load :: "disk_file \<Rightarrow> exn + json" where
  "json_load f =
     (case f of
        Undecodable \<Rightarrow> Inl UnicodeDecodeError
      | Malformed \<Rightarrow> Inl JSONDecodeError
      | Rejected e \<Rightarrow> Inl e
      | Document v \<Rightarrow> Inr v)"

text \<open>
  The store: the directory \<open>STORAGE_PATH\<close> does not exist, or it exists and the file at
  \<open>OUTPUT_PATH\<close> is absent (\<open>None\<close>) or present.
\<close>

datatype store = NoDir | Dir "disk_file option"

text \<open>
  The accesses a call makes, in order: \<open>os.path.exists\<close>, opening the file for reading,
  opening it for writing.
\<close>

datatype io = Exists | Read | Write

text \<open>
  Lines 101--107: \<open>existing_data\<close> starts as the empty list; an existing file is read, and
  only \<open>json.JSONDecodeError\<close> is caught.
\<close>

definition read_existing :: "store \<Rightarrow> io list \<times> (exn + json)" where
  "read_existing st =
     (case st of
        Dir (Some f) \<Rightarrow>
          (case json_load f of
             Inl e \<Rightarrow> ([Exists, Read], if e = JSONDecodeError then Inr (JArray []) else Inl e)
           | Inr v \<Rightarrow> ([Exists, Read], Inr v))
      | _ \<Rightarrow> ([Exists], Inr (JArray [])))"

text \<open>Line 109: only a list has \<open>extend\<close>.\<close>

definition list_extend :: "json \<Rightarrow> json list \<Rightarrow> exn + json" where
  "list_extend existing_data new =
     (case existing_data of JArray xs \<Rightarrow> Inr (JArray (xs @ new)) | _ \<Rightarrow> Inl AttributeError)"

text \<open>
  Lines 111--112. Without the directory \<open>open(OUTPUT_PATH, 'w')\<close> raises
  \<open>FileNotFoundError\<close> and nothing changes. Otherwise the file is created or truncated
  and the value written; at a string that UTF-8 cannot encode the write raises
  \<open>UnicodeEncodeError\<close>, and the file is left holding the part of the array written so
  far, which is not JSON. The result is the store afterwards, with the exception when
  one is raised.
\<close>

definition json_dump :: "store \<Rightarrow> json \<Rightarrow> exn \<times> store + store" where
  "json_dump st v =
     (case st of
        NoDir \<Rightarrow> Inl (FileNotFoundError, NoDir)
      | Dir f \<Rightarrow>
          if encodable v then Inr (Dir (Some (Document v)))
          else Inl (UnicodeEncodeError, Dir (Some Malformed)))"

text \<open>
  Lines 96--112. The result is the trace of file accesses and the store after the call,
  with the exception when the call raises one. An exception raised while reading or
  extending comes before the file is opened for writing, so the store is then as it was.
\<close>

definition append_triples_to_json ::
  "store \<Rightarrow> triple list \<Rightarrow> io list \<times> (exn \<times> store + store)" where
  "append_triples_to_json st new_triples =
     (if new_triples = [] then ([], Inr st)
      else case read_existing st of
             (tr, Inl e) \<Rightarrow> (tr, Inl (e, st))
           | (tr, Inr existing_data) \<Rightarrow>
               (case list_extend existing_data (map triple_json new_triples) of
                  Inl e \<Rightarrow> (tr, Inl (e, st))
                | Inr v \<Rightarrow> (tr @ [Write], json_dump st v)))"

text \<open>Calling \<open>append_triples_to_json\<close> on each batch in turn, as the loop of \<open>main\<close> does.\<close>

fun merge_all :: "store \<Rightarrow> triple list list \<Rightarrow> exn \<times> store + store" where
  "merge_all st [] = Inr st"
| "merge_all st (b # bs) =
     (case snd (append_triples_to_json st b) of
        Inl failure \<Rightarrow> Inl failure
      | Inr st' \<Rightarrow> merge_all st' bs)"

text \<open>Line 134 of \<open>main\<close>: \<open>os.makedirs(STORAGE_PATH, exist_ok=True)\<close>.\<close>

definition makedirs :: "store \<Rightarrow> store" where
  "makedirs st = (case st of NoDir \<Rightarrow> Dir None | Dir f \<Rightarrow> Dir f)"

text \<open>
  Lines 133--136 of \<open>main\<close>: the directory is created when it is missing, and the file is
  removed when it exists.
\<close>

definition clear :: "store \<Rightarrow> store" where
  "clear st = (case makedirs st of Dir (Some f) \<Rightarrow> Dir None | st' \<Rightarrow> st')"

text \<open>
  Lines 187--189 of \<open>main\<close>: an existing file is loaded into \<open>st.session_state['results']\<close>;
  without a file the session is left as it is. A session is the value under that key, or
  \<open>None\<close> when the key is absent, as it is until a first load.
\<close>

type_synonym session = "json option"

definition load_all :: "store \<Rightarrow> session \<Rightarrow> exn + session" where
  "load_all st results =
     (case st of
        Dir (Some f) \<Rightarrow> (case json_load f of Inl e \<Rightarrow> Inl e | Inr v \<Rightarrow> Inr (Some v))
      | _ \<Rightarrow> Inr results)"

section \<open>One paper (\<open>process_single_paper\<close>, \<open>extract_text_from_pdf\<close>)\<close>

text \<open>
  \<open>\s\<close> in a \<open>str\<close> pattern matches the code points Python calls whitespace; below 256
  these are 9--13, 28--32, 133 and 160.
\<close>

definition is_space :: "char \<Rightarrow> bool" where
  "is_space c =
     (let n = (of_char c :: nat)
      in (9 \<le> n \<and> n \<le> 13) \<or> (28 \<le> n \<and> n \<le> 32) \<or> n = 133 \<or> n = 160)"

text \<open>\<open>re.sub(r'\s+', ' ', s)\<close>: every maximal run of whitespace becomes one space.\<close>

function sub_spaces :: "string \<Rightarrow> string" where
  "sub_spaces [] = []"
| "sub_spaces (c # cs) =
     (if is_space c then CHR '' '' # sub_spaces (dropWhile is_space cs)
      else c # sub_spaces cs)"
  by pat_completeness auto
termination
  by (relation "measure length") (auto simp: length_dropWhile_le less_Suc_eq_le)

text \<open>
  \<open>s.replace(old, new)\<close> for a non-empty \<open>old\<close>: occurrences are replaced from the left
  and do not overlap.
\<close>

function replace :: "string \<Rightarrow> string \<Rightarrow> string \<Rightarrow> string" where
  "replace old new [] = []"
| "replace old new (c # cs) =
     (if old \<noteq> [] \<and> take (length old) (c # cs) = old
      then new @ replace old new (drop (length old - 1) cs)
      else c # replace old new cs)"
  by pat_completeness auto
termination
  by (relation "measure (\<lambda>(old, new, s). length s)") auto

text \<open>
  The PDF files under \<open>STORAGE_PATH\<close>, by what PyMuPDF makes of each: opening or reading
  it raises, or it has pages with these texts. A path without a file makes
  \<open>fitz.open\<close> raise.
\<close>

type_synonym pdf = "exn + string list"

type_synonym files = "string \<rightharpoonup> pdf"

definition open_pdf :: "files \<Rightarrow> string \<Rightarrow> exn + string list" where
  "open_pdf fs pdf_path =
     (case fs pdf_path of None \<Rightarrow> Inl (External ''no such file'') | Some f \<Rightarrow> f)"

definition extract_text_from_pdf :: "files \<Rightarrow> string \<Rightarrow> string" where
  "extract_text_from_pdf fs pdf_path =
     (case open_pdf fs pdf_path of
        Inl e \<Rightarrow> []
      | Inr pages \<Rightarrow> replace [CHR ''-'', CHR 0x0A] [] (sub_spaces (join '' '' pages)))"

text \<open>What the code reads of an \<open>arxiv.Result\<close>.\<close>

record paper =
  title :: string
  entry_id :: string

definition STORAGE_PATH :: string where
  "STORAGE_PATH = ''./papers''"

text \<open>\<open>os.path.join\<close> of two components on a POSIX system.\<close>

definition path_join :: "string \<Rightarrow> string \<Rightarrow> string" where
  "path_join a b =
     (if take 1 b = ''/'' then b
      else if a = [] \<or> last a = CHR ''/'' then a @ b
      else a @ ''/'' @ b)"

text \<open>\<open>re.sub(r'[\\/*?:"<>|]', "", title)\<close>: the listed characters are dropped.\<close>

definition safe_title :: "string \<Rightarrow> string" where
  "safe_title t =
     filter (\<lambda>c. c \<notin> set [CHR 0x5C, CHR ''/'', CHR ''*'', CHR ''?'', CHR '':'', CHR 0x22,
                               CHR ''<'', CHR ''>'', CHR ''|'']) t"

text \<open>Lines 50--51: where the PDF of a paper is kept.\<close>

definition pdf_path :: "paper \<Rightarrow> string" where
  "pdf_path paper_result =
     path_join STORAGE_PATH (safe_title (title paper_result) @ ''.pdf'')"

text \<open>Line 55.\<close>

definition paper_info_of :: "paper \<Rightarrow> (string \<rightharpoonup> string)" where
  "paper_info_of paper_result =
     [''title'' \<mapsto> title paper_result, ''url'' \<mapsto> entry_id paper_result]"

text \<open>
  Lines 50--60, the body of the \<open>try\<close>. \<open>download\<close> is \<open>paper_result.download_pdf\<close>: it
  raises, or leaves a file at the path. The result is the files afterwards and what the
  body returns or raises.
\<close>

definition paper_body ::
  "(string \<Rightarrow> exn + sentence list) \<Rightarrow> (paper \<Rightarrow> exn + pdf) \<Rightarrow> files \<Rightarrow> paper
     \<Rightarrow> files \<times> (exn + triple list)" where
  "paper_body nlp download fs paper_result =
     (case (if fs (pdf_path paper_result) = None
            then (case download paper_result of
                    Inl e \<Rightarrow> Inl e
                  | Inr f \<Rightarrow> Inr (fs(pdf_path paper_result \<mapsto> f)))
            else Inr fs) of
        Inl e \<Rightarrow> (fs, Inl e)
      | Inr fs' \<Rightarrow>
          (let text = extract_text_from_pdf fs' (pdf_path paper_result)
           in if text = [] then (fs', Inr [])
              else (fs', create_triples_from_text nlp text (paper_info_of paper_result) 50000)))"

text \<open>Lines 47--62: \<open>except Exception: return []\<close> around that body.\<close>

definition process_single_paper ::
  "(string \<Rightarrow> exn + sentence list) \<Rightarrow> (paper \<Rightarrow> exn + pdf) \<Rightarrow> files \<Rightarrow> paper
     \<Rightarrow> files \<times> (exn + triple list)" where
  "process_single_paper nlp download fs paper_result =
     (case paper_body nlp download fs paper_result of
        (fs', Inl e) \<Rightarrow> (fs', Inr [])
      | (fs', Inr triples) \<Rightarrow> (fs', Inr triples))"

section \<open>Example inputs\<close>

text \<open>
  A token of a subtree, of which only the text is read.
\<close>

definition word :: "string \<Rightarrow> token" where
  "word w = Token w [] [] []"

definition example_sentence :: sentence where
  "example_sentence =
     \<lparr>tokens =
        [Token ''Alice'' ''nsubj'' ''Alice'' [word ''Alice''],
         Token ''told'' ''ROOT'' ''tell''
           (map word [''Alice'', ''told'', ''Bob'', ''that'', ''the'', ''cats'', ''chase'', ''mice'']),
         Token ''Bob'' ''dobj'' ''Bob'' [word ''Bob''],
         Token ''that'' ''mark'' ''that'' [word ''that''],
         Token ''the'' ''det'' ''the'' [word ''the''],
         Token ''cats'' ''nsubj'' ''cat'' [word ''the'', word ''cats''],
         Token ''chase'' ''ccomp'' ''chase''
           (map word [''that'', ''the'', ''cats'', ''chase'', ''mice'']),
         Token ''mice'' ''dobj'' ''mouse'' [word ''mice'']],
      root =
        Token ''told'' ''ROOT'' ''tell''
          (map word [''Alice'', ''told'', ''Bob'', ''that'', ''the'', ''cats'', ''chase'', ''mice''])\<rparr>"

definition example_info :: "string \<rightharpoonup> string" where
  "example_info = [''title'' \<mapsto> ''A paper'', ''url'' \<mapsto> ''http://arxiv.org/abs/1'']"

definition example_paper :: paper where
  "example_paper = \<lparr>title = ''What is a model?'', entry_id = ''http://arxiv.org/abs/1''\<rparr>"

section \<open>Facts about ranges and slices\<close>

declare range_up.simps [simp del]
declare range_down.simps [simp del]

lemma range_up_step:
  assumes "0 < k" and "i < n"
  shows "range_up i n k = i # range_up (i + k) n k"
  using assms by (subst range_up.simps) simp

lemma range_up_stop:
  assumes "\<not> i < n"
  shows "range_up i n k = []"
  using assms by (subst range_up.simps) simp

lemma range_down_stop:
  assumes "\<not> n < i"
  shows "range_down i n k = []"
  using assms by (subst range_down.simps) simp

lemma py_slice_window:
  assumes "0 \<le> i" and "0 < k" and "i \<le> int (length xs)"
  shows "py_slice xs i (i + k) = take (nat k) (drop (nat i) xs)"
proof -
  have a: "slice_index (length xs) i = nat i"
    using assms by (simp add: slice_index_def min_def)
  have b: "slice_index (length xs) (i + k) = min (nat i + nat k) (length xs)"
    using assms by (auto simp: slice_index_def min_def)
  have "take (min (nat i + nat k) (length xs) - nat i) (drop (nat i) xs)
        = take (nat k) (drop (nat i) xs)"
    by (rule nth_equalityI) (auto simp: min_def)
  then show ?thesis
    by (simp add: py_slice_def a b)
qed

lemma concat_windows:
  assumes "0 < k" and "0 \<le> i"
  shows "concat (map (\<lambda>j. py_slice xs j (j + k)) (range_up i (int (length xs)) k))
         = drop (nat i) xs"
  using assms
proof (induction i "int (length xs)" k rule: range_up.induct)
  case (1 i k)
  show ?case
  proof (cases "i < int (length xs)")
    case True
    have step: "nat (i + k) = nat i + nat k"
      using "1.prems" by (simp add: nat_add_distrib)
    have ih: "concat (map (\<lambda>j. py_slice xs j (j + k)) (range_up (i + k) (int (length xs)) k))
              = drop (nat i + nat k) xs"
      using "1.hyps" "1.prems" True step by simp
    have win: "py_slice xs i (i + k) = take (nat k) (drop (nat i) xs)"
      using py_slice_window [of i k xs] "1.prems" True by simp
    have "take (nat k) (drop (nat i) xs) @ drop (nat i + nat k) xs = drop (nat i) xs"
      by (metis add.commute append_take_drop_id drop_drop)
    then show ?thesis
      using ih win by (simp add: range_up_step [OF "1.prems"(1) True])
  next
    case False
    then show ?thesis
      using "1.prems" by (simp add: range_up_stop)
  qed
qed

lemma div_shift:
  fixes k :: int
  assumes "0 < k"
  shows "(x + k) div k = x div k + 1"
  using assms div_add_self2 [of k x] by simp

lemma div_small:
  fixes k :: int
  assumes "0 < k" and "x < k"
  shows "x div k \<le> 0"
proof (cases "x < 0")
  case True
  then have "x div k < 0"
    using assms by (simp add: pos_imp_zdiv_neg_iff)
  then show ?thesis by simp
next
  case False
  then have "x div k = 0"
    using assms by (simp add: div_pos_pos_trivial)
  then show ?thesis by simp
qed

lemma range_up_length:
  assumes "0 < k"
  shows "length (range_up i n k) = nat ((n - i + k - 1) div k)"
  using assms
proof (induction i n k rule: range_up.induct)
  case (1 i n k)
  show ?case
  proof (cases "i < n")
    case True
    have nonneg: "0 \<le> (n - i - 1) div k"
      using True "1.prems" by (simp add: pos_imp_zdiv_nonneg_iff)
    have e1: "n - i + k - 1 = (n - i - 1) + k" by simp
    have e2: "n - (i + k) + k - 1 = n - i - 1" by simp
    have "(n - i + k - 1) div k = (n - i - 1) div k + 1"
      unfolding e1 using "1.prems" by (rule div_shift)
    moreover have "length (range_up (i + k) n k) = nat ((n - i - 1) div k)"
      using "1.IH" "1.prems" True e2 by simp
    moreover have "range_up i n k = i # range_up (i + k) n k"
      using True "1.prems" by (rule range_up_step [rotated])
    ultimately show ?thesis
      using nonneg by (simp add: nat_add_distrib)
  next
    case False
    then have "n - i + k - 1 < k" by simp
    then have "(n - i + k - 1) div k \<le> 0"
      using "1.prems" div_small by blast
    moreover have "range_up i n k = []"
      using False by (rule range_up_stop)
    ultimately show ?thesis by simp
  qed
qed

lemma range_up_nth:
  assumes "0 < k" and "j < length (range_up i n k)"
  shows "range_up i n k ! j = i + int j * k"
  using assms
proof (induction i n k arbitrary: j rule: range_up.induct)
  case (1 i n k)
  show ?case
  proof (cases "i < n")
    case True
    note unfold = range_up_step [OF "1.prems"(1) True]
    show ?thesis
    proof (cases j)
      case 0
      then show ?thesis by (simp add: unfold)
    next
      case (Suc j')
      then have "j' < length (range_up (i + k) n k)"
        using "1.prems" by (simp add: unfold)
      then have "range_up (i + k) n k ! j' = i + k + int j' * k"
        using "1.IH" "1.prems" True by simp
      then show ?thesis
        using Suc by (simp add: unfold algebra_simps)
    qed
  next
    case False
    then show ?thesis using "1.prems" by (simp add: range_up_stop)
  qed
qed

lemma range_up_bound:
  assumes "0 < k" and "x \<in> set (range_up i n k)"
  shows "i \<le> x \<and> x < n"
  using assms
proof (induction i n k rule: range_up.induct)
  case (1 i n k)
  show ?case
  proof (cases "i < n")
    case True
    have "x = i \<or> x \<in> set (range_up (i + k) n k)"
      using "1.prems" by (simp add: range_up_step [OF "1.prems"(1) True])
    then show ?thesis
      using "1.IH" "1.prems" True by auto
  next
    case False
    then show ?thesis using "1.prems" by (simp add: range_up_stop)
  qed
qed

lemma chunks_pos:
  assumes "0 < k"
  shows "chunks text k
         = Inr (map (\<lambda>i. py_slice text i (i + k)) (range_up 0 (int (length text)) k))"
  using assms by (simp add: chunks_def py_range_def)

lemma chunk_nth:
  assumes "0 < k" and "j < length (range_up 0 (int (length text)) k)"
  shows "map (\<lambda>i. py_slice text i (i + k)) (range_up 0 (int (length text)) k) ! j
         = take (nat k) (drop (j * nat k) text)"
    and "j * nat k < length text"
proof -
  let ?r = "range_up 0 (int (length text)) k"
  have at: "?r ! j = int j * k"
    using range_up_nth [OF assms] by simp
  have "?r ! j \<in> set ?r"
    using assms(2) by simp
  then have lt: "int j * k < int (length text)"
    using range_up_bound [OF assms(1)] at by force
  have n: "nat (int j * k) = j * nat k"
    using assms(1) by (simp add: nat_mult_distrib)
  have "0 \<le> int j * k"
    using assms(1) by simp
  then have "nat (int j * k) < length text"
    using lt by (simp add: nat_less_iff)
  then show "j * nat k < length text"
    by (simp only: n)
  have "py_slice text (int j * k) (int j * k + k) = take (nat k) (drop (nat (int j * k)) text)"
    using assms(1) lt by (intro py_slice_window) simp_all
  then show "map (\<lambda>i. py_slice text i (i + k)) ?r ! j = take (nat k) (drop (j * nat k) text)"
    using assms(2) at n by simp
qed

lemma ceiling_div:
  fixes n k :: int
  assumes "0 < k"
  shows "\<lceil>real_of_int n / real_of_int k\<rceil> = (n + k - 1) div k"
proof -
  define q where "q = n div k"
  define r where "r = n mod k"
  have n: "n = k * q + r"
    by (simp add: q_def r_def)
  have r: "0 \<le> r" "r < k"
    using assms by (simp_all add: r_def)
  have "- (- n div k) = (n + k - 1) div k"
  proof (cases "r = 0")
    case True
    have "- n = k * (- q) + 0"
      using n True by simp
    then have a: "- n div k = - q"
      by (rule int_div_pos_eq) (use assms in simp_all)
    have "n + k - 1 = k * q + (k - 1)"
      using n True by simp
    then have "(n + k - 1) div k = q"
      by (rule int_div_pos_eq) (use assms in simp_all)
    then show ?thesis using a by simp
  next
    case False
    have "- n = k * (- q - 1) + (k - r)"
      using n by (simp add: algebra_simps)
    then have a: "- n div k = - q - 1"
      by (rule int_div_pos_eq) (use r False in simp_all)
    have "n + k - 1 = k * (q + 1) + (r - 1)"
      using n by (simp add: algebra_simps)
    then have "(n + k - 1) div k = q + 1"
      by (rule int_div_pos_eq) (use r False in simp_all)
    then show ?thesis using a by simp
  qed
  then show ?thesis
    by (simp add: ceiling_divide_eq_div)
qed

lemma range_down_nonpos:
  assumes "0 \<le> n"
  shows "range_down 0 n k = []"
  using assms by (intro range_down_stop) simp

section \<open>Chunking: coverage and count\<close>

text \<open>
  Claim C2. For a positive \<open>max_size\<close> chunking returns normally; the chunks concatenated
  in order give the text back; chunk \<open>j\<close> is the window of \<open>max_size\<close> code points that
  starts at \<open>j * max_size\<close>, so the chunks are consecutive and do not overlap; every chunk
  but the last has exactly \<open>max_size\<close> code points; the empty text has no chunks.
\<close>

theorem chunks_cover:
  assumes "0 < max_size"
  shows "\<exists>cs. chunks text max_size = Inr cs \<and> concat cs = text
           \<and> (\<forall>j < length cs. cs ! j = take (nat max_size) (drop (j * nat max_size) text))
           \<and> (\<forall>j. Suc j < length cs \<longrightarrow> length (cs ! j) = nat max_size)
           \<and> (text = [] \<longrightarrow> cs = [])"
proof -
  let ?r = "range_up 0 (int (length text)) max_size"
  let ?cs = "map (\<lambda>i. py_slice text i (i + max_size)) ?r"
  have c1: "chunks text max_size = Inr ?cs"
    using assms by (rule chunks_pos)
  have c2: "concat ?cs = text"
    using concat_windows [OF assms, of 0 "text"] by simp
  have c3: "\<forall>j < length ?cs. ?cs ! j = take (nat max_size) (drop (j * nat max_size) text)"
  proof (intro allI impI)
    fix j assume "j < length ?cs"
    then have "j < length ?r" by simp
    then show "?cs ! j = take (nat max_size) (drop (j * nat max_size) text)"
      by (rule chunk_nth(1) [OF assms])
  qed
  have c4: "\<forall>j. Suc j < length ?cs \<longrightarrow> length (?cs ! j) = nat max_size"
  proof (intro allI impI)
    fix j assume s: "Suc j < length ?cs"
    then have "Suc j * nat max_size < length text"
      using chunk_nth(2) [OF assms, of "Suc j" "text"] by simp
    moreover have "?cs ! j = take (nat max_size) (drop (j * nat max_size) text)"
      using c3 s by simp
    ultimately show "length (?cs ! j) = nat max_size"
      by simp
  qed
  have c5: "text = [] \<longrightarrow> ?cs = []"
    by (simp add: range_up_stop)
  show ?thesis
    using c1 c2 c3 c4 c5 by blast
qed


theorem chunks_cover_witness:
  "chunks ''abcdefghijklmnopqrstuvwxy'' 10 = Inr [''abcdefghij'', ''klmnopqrst'', ''uvwxy'']
   \<and> concat [''abcdefghij'', ''klmnopqrst'', ''uvwxy''] = ''abcdefghijklmnopqrstuvwxy''"
proof -
  have e: "chunks ''abcdefghijklmnopqrstuvwxy'' 10
           = Inr [''abcdefghij'', ''klmnopqrst'', ''uvwxy'']"
    by code_simp
  have h: "(0::int) < 10" by simp
  obtain cs where "chunks ''abcdefghijklmnopqrstuvwxy'' 10 = Inr cs"
    and "concat cs = ''abcdefghijklmnopqrstuvwxy''"
    using chunks_cover [OF h, of "''abcdefghijklmnopqrstuvwxy''"] by blast
  then show ?thesis
    using e by simp
qed

text \<open>
  Claim C9. For a non-empty text and a positive \<open>max_size\<close>, every chunk has at least one
  code point and there are \<open>ceil(len(text) / max_size)\<close> chunks.
\<close>

theorem chunks_count:
  assumes "0 < max_size" and "text \<noteq> []"
  shows "\<exists>cs. chunks text max_size = Inr cs \<and> (\<forall>c \<in> set cs. 1 \<le> length c)
           \<and> int (length cs) = \<lceil>real (length text) / real_of_int max_size\<rceil>"
proof -
  let ?r = "range_up 0 (int (length text)) max_size"
  let ?cs = "map (\<lambda>i. py_slice text i (i + max_size)) ?r"
  have c1: "chunks text max_size = Inr ?cs"
    using assms(1) by (rule chunks_pos)
  have c2: "\<forall>c \<in> set ?cs. 1 \<le> length c"
  proof
    fix c assume "c \<in> set ?cs"
    then obtain j where j: "j < length ?cs" and c: "c = ?cs ! j"
      by (metis in_set_conv_nth)
    have jr: "j < length ?r"
      using j by simp
    have "c = take (nat max_size) (drop (j * nat max_size) text)"
      unfolding c using jr by (rule chunk_nth(1) [OF assms(1)])
    moreover have "j * nat max_size < length text"
      using jr by (rule chunk_nth(2) [OF assms(1)])
    ultimately show "1 \<le> length c"
      using assms(1) by (auto simp: Suc_le_eq)
  qed
  have "0 \<le> (int (length text) + max_size - 1) div max_size"
    using assms(1) by (simp add: pos_imp_zdiv_nonneg_iff)
  then have "int (length ?r) = (int (length text) + max_size - 1) div max_size"
    using range_up_length [OF assms(1), of 0 "int (length text)"] by simp
  also have "\<dots> = \<lceil>real_of_int (int (length text)) / real_of_int max_size\<rceil>"
    using ceiling_div [OF assms(1), of "int (length text)"] by simp
  finally have c3: "int (length ?cs) = \<lceil>real (length text) / real_of_int max_size\<rceil>"
    by simp
  show ?thesis
    using c1 c2 c3 by blast
qed

theorem chunks_count_witness:
  "chunks ''abcdefghijklmnopqrstuvwxy'' 10 = Inr [''abcdefghij'', ''klmnopqrst'', ''uvwxy'']
   \<and> \<lceil>real (length ''abcdefghijklmnopqrstuvwxy'') / real_of_int 10\<rceil> = 3"
proof -
  have e: "chunks ''abcdefghijklmnopqrstuvwxy'' 10
           = Inr [''abcdefghij'', ''klmnopqrst'', ''uvwxy'']"
    by code_simp
  have h: "(0::int) < 10" and t: "''abcdefghijklmnopqrstuvwxy'' \<noteq> []"
    by simp_all
  obtain cs where "chunks ''abcdefghijklmnopqrstuvwxy'' 10 = Inr cs"
    and "int (length cs) = \<lceil>real (length ''abcdefghijklmnopqrstuvwxy'') / real_of_int 10\<rceil>"
    using chunks_count [OF h t] by blast
  then show ?thesis
    using e by simp
qed

section \<open>Facts about the extraction loops\<close>

lemma collect_all_Inr:
  assumes "\<forall>x \<in> set xs. f x = Inr (g x)"
  shows "collect f xs = Inr (concat (map g xs))"
  using assms by (induction xs) simp_all

lemma collect_append:
  "collect f (xs @ ys)
   = (case collect f xs of
        Inl e \<Rightarrow> Inl e
      | Inr a \<Rightarrow> (case collect f ys of Inl e \<Rightarrow> Inl e | Inr b \<Rightarrow> Inr (a @ b)))"
  by (induction xs) (simp_all split: sum.splits)

lemma product_concat:
  "map (\<lambda>(x, y). f x y) (List.product xs ys) = concat (map (\<lambda>x. map (f x) ys) xs)"
  by (induction xs) simp_all

lemma make_triple_present:
  assumes "paper_info ''title'' = Some t" and "paper_info ''url'' = Some u"
  shows "make_triple paper_info verb sub obj
         = Inr [\<lparr>subject = join '' '' (map tok_text (subtree sub)),
                  predicate = tok_lemma verb,
                  object = join '' '' (map tok_text (subtree obj)),
                  source_title = t, source_url = u\<rparr>]"
  using assms by (simp add: make_triple_def getitem_def)

lemma sentence_triples_present:
  assumes "paper_info ''title'' = Some t" and "paper_info ''url'' = Some u"
  shows "sentence_triples paper_info sent
         = Inr (if subjects sent \<noteq> [] \<and> objects sent \<noteq> []
                then map (\<lambda>(sub, obj).
                            \<lparr>subject = join '' '' (map tok_text (subtree sub)),
                             predicate = tok_lemma (root sent),
                             object = join '' '' (map tok_text (subtree obj)),
                             source_title = t, source_url = u\<rparr>)
                         (List.product (subjects sent) (objects sent))
                else [])"
proof -
  let ?mk = "\<lambda>sub obj. \<lparr>subject = join '' '' (map tok_text (subtree sub)),
                           predicate = tok_lemma (root sent),
                           object = join '' '' (map tok_text (subtree obj)),
                           source_title = t, source_url = u\<rparr>"
  have inner: "collect (\<lambda>obj. make_triple paper_info (root sent) sub obj) (objects sent)
               = Inr (map (?mk sub) (objects sent))" for sub
    using collect_all_Inr [of "objects sent" "\<lambda>obj. make_triple paper_info (root sent) sub obj"
        "\<lambda>obj. [?mk sub obj]"]
    by (simp add: make_triple_present [OF assms] concat_map_singleton)
  have "collect (\<lambda>sub. collect (\<lambda>obj. make_triple paper_info (root sent) sub obj)
                                   (objects sent)) (subjects sent)
        = Inr (concat (map (\<lambda>sub. map (?mk sub) (objects sent)) (subjects sent)))"
    by (rule collect_all_Inr) (simp add: inner)
  then show ?thesis
    by (simp add: sentence_triples_def product_concat)
qed

lemma extract_triples_total:
  assumes "paper_info ''title'' = Some t" and "paper_info ''url'' = Some u"
  shows "\<exists>ts. extract_triples paper_info sents = Inr ts"
proof -
  have "\<forall>s \<in> set sents. \<exists>ts. sentence_triples paper_info s = Inr ts"
    using sentence_triples_present [OF assms] by blast
  then show ?thesis
    unfolding extract_triples_def
    by (induction sents) auto
qed

lemma collect_total:
  assumes "\<forall>x \<in> set xs. \<exists>ys. f x = Inr ys"
  shows "\<exists>zs. collect f xs = Inr zs"
  using assms by (induction xs) auto

lemma collect_first_raises:
  assumes "f x = Inl e"
  shows "collect f (x # xs) = Inl e"
  using assms by simp

lemma make_triple_no_title:
  assumes "paper_info ''title'' = None"
  shows "make_triple paper_info verb sub obj = Inl (KeyError ''title'')"
  using assms by (simp add: make_triple_def getitem_def)

lemma make_triple_no_url:
  assumes "paper_info ''title'' = Some t" and "paper_info ''url'' = None"
  shows "make_triple paper_info verb sub obj = Inl (KeyError ''url'')"
  using assms by (simp add: make_triple_def getitem_def)

lemma sentence_triples_raises:
  assumes "subjects sent \<noteq> []" and "objects sent \<noteq> []"
    and "\<And>sub obj. make_triple paper_info (root sent) sub obj = Inl e"
  shows "sentence_triples paper_info sent = Inl e"
proof -
  obtain s ss where s: "subjects sent = s # ss"
    using assms(1) by (cases "subjects sent") auto
  obtain ob obs where ob: "objects sent = ob # obs"
    using assms(2) by (cases "objects sent") auto
  show ?thesis
    by (simp add: sentence_triples_def s ob assms(3))
qed

lemma create_triples_total:
  assumes "0 < chunk_size" and "\<forall>chunk. \<exists>sents. nlp chunk = Inr sents"
    and "paper_info ''title'' = Some t" and "paper_info ''url'' = Some u"
  shows "\<exists>triples. create_triples_from_text nlp text paper_info chunk_size = Inr triples"
proof -
  have "\<exists>ys. (case nlp chunk of Inl e \<Rightarrow> Inl e
                            | Inr sents \<Rightarrow> extract_triples paper_info sents) = Inr ys" for chunk
  proof -
    obtain sents where "nlp chunk = Inr sents"
      using assms(2) by blast
    then show ?thesis
      using extract_triples_total [OF assms(3,4), of sents] by simp
  qed
  then have "\<exists>zs. collect (\<lambda>chunk. case nlp chunk of Inl e \<Rightarrow> Inl e
                            | Inr sents \<Rightarrow> extract_triples paper_info sents) cs = Inr zs" for cs
    by (intro collect_total) blast
  then show ?thesis
    by (simp add: create_triples_from_text_def chunks_pos [OF assms(1)])
qed

lemma example_subjects:
  "subjects example_sentence
   = [Token ''Alice'' ''nsubj'' ''Alice'' [word ''Alice''],
      Token ''cats'' ''nsubj'' ''cat'' [word ''the'', word ''cats'']]"
  by (simp add: subjects_def example_sentence_def)

lemma example_objects:
  "objects example_sentence
   = [Token ''Bob'' ''dobj'' ''Bob'' [word ''Bob''],
      Token ''mice'' ''dobj'' ''mouse'' [word ''mice'']]"
  by (simp add: objects_def example_sentence_def)


section \<open>Extraction: the Cartesian product and the degenerate cases\<close>

text \<open>
  Claim C1. Let the provenance hold a title and a URL, and let a sentence have \<open>k \<ge> 1\<close>
  tokens whose dependency tag contains \<open>subj\<close> and \<open>m \<ge> 1\<close> whose tag contains \<open>obj\<close>.
  Wherever the sentence stands among the sentences given to the extractor, its
  contribution is one triple for each pair of the product of its subjects and objects,
  subjects outer and objects inner, \<open>k * m\<close> triples in all: the subject and the object
  are the texts of the token's subtree joined by single spaces, the predicate is the
  lemma of the sentence's root, and title and URL are those of the provenance.
\<close>

theorem extract_cartesian:
  assumes "paper_info ''title'' = Some t" and "paper_info ''url'' = Some u"
    and "1 \<le> length (subjects sent)" and "1 \<le> length (objects sent)"
  shows "\<exists>ts1 ts2.
           extract_triples paper_info before = Inr ts1
         \<and> extract_triples paper_info after = Inr ts2
         \<and> extract_triples paper_info (before @ sent # after)
           = Inr (ts1
                  @ map (\<lambda>(sub, obj).
                           \<lparr>subject = join '' '' (map tok_text (subtree sub)),
                            predicate = tok_lemma (root sent),
                            object = join '' '' (map tok_text (subtree obj)),
                            source_title = t, source_url = u\<rparr>)
                        (List.product (subjects sent) (objects sent))
                  @ ts2)
         \<and> length (List.product (subjects sent) (objects sent))
           = length (subjects sent) * length (objects sent)"
proof -
  obtain ts1 where b: "extract_triples paper_info before = Inr ts1"
    using extract_triples_total [OF assms(1,2)] by blast
  obtain ts2 where a: "extract_triples paper_info after = Inr ts2"
    using extract_triples_total [OF assms(1,2)] by blast
  have ne: "subjects sent \<noteq> [] \<and> objects sent \<noteq> []"
    using assms(3,4) by auto
  have "extract_triples paper_info (before @ sent # after)
        = Inr (ts1
               @ map (\<lambda>(sub, obj).
                        \<lparr>subject = join '' '' (map tok_text (subtree sub)),
                         predicate = tok_lemma (root sent),
                         object = join '' '' (map tok_text (subtree obj)),
                         source_title = t, source_url = u\<rparr>)
                     (List.product (subjects sent) (objects sent))
               @ ts2)"
    using a b ne
    by (simp add: extract_triples_def collect_append sentence_triples_present [OF assms(1,2)])
  then show ?thesis
    using a b by simp
qed

theorem extract_cartesian_witness:
  "extract_triples example_info [example_sentence]
   = Inr [\<lparr>subject = ''Alice'', predicate = ''tell'', object = ''Bob'',
            source_title = ''A paper'', source_url = ''http://arxiv.org/abs/1''\<rparr>,
          \<lparr>subject = ''Alice'', predicate = ''tell'', object = ''mice'',
            source_title = ''A paper'', source_url = ''http://arxiv.org/abs/1''\<rparr>,
          \<lparr>subject = ''the cats'', predicate = ''tell'', object = ''Bob'',
            source_title = ''A paper'', source_url = ''http://arxiv.org/abs/1''\<rparr>,
          \<lparr>subject = ''the cats'', predicate = ''tell'', object = ''mice'',
            source_title = ''A paper'', source_url = ''http://arxiv.org/abs/1''\<rparr>]"
proof -
  have h1: "example_info ''title'' = Some ''A paper''"
    and h2: "example_info ''url'' = Some ''http://arxiv.org/abs/1''"
    by (simp_all add: example_info_def)
  have h3: "1 \<le> length (subjects example_sentence)"
    and h4: "1 \<le> length (objects example_sentence)"
    by (simp_all add: example_subjects example_objects)
  have r: "tok_lemma (root example_sentence) = ''tell''"
    by (simp add: example_sentence_def)
  show ?thesis
    using extract_cartesian [OF h1 h2 h3 h4, of "[]" "[]"]
    by (simp add: extract_triples_def example_subjects example_objects r word_def)
qed


text \<open>
  Claim C6. Whatever the provenance holds, even nothing, extraction from no sentences
  returns the empty list, and so does extraction from sentences each of which lacks a
  subject token or lacks an object token; the result is a normal return, not an
  exception.
\<close>

theorem extract_degenerate:
  "extract_triples paper_info [] = Inr []
   \<and> ((\<forall>s \<in> set sents. subjects s = [] \<or> objects s = [])
        \<longrightarrow> extract_triples paper_info sents = Inr [])"
proof -
  have "extract_triples paper_info sents = Inr []"
    if "\<forall>s \<in> set sents. subjects s = [] \<or> objects s = []"
  proof -
    have "\<forall>s \<in> set sents. sentence_triples paper_info s = Inr []"
      using that by (auto simp: sentence_triples_def)
    then have "collect (sentence_triples paper_info) sents = Inr (concat (map (\<lambda>s. []) sents))"
      by (rule collect_all_Inr)
    then show ?thesis
      by (simp add: extract_triples_def)
  qed
  then show ?thesis
    by (simp add: extract_triples_def)
qed

theorem extract_degenerate_witness:
  "extract_triples Map.empty
     [\<lparr>tokens = [Token ''Hello'' ''intj'' ''hello'' [word ''Hello''],
                 Token ''world'' ''npadvmod'' ''world'' [word ''world'']],
       root = Token ''Hello'' ''intj'' ''hello'' [word ''Hello'']\<rparr>,
      \<lparr>tokens = [Token ''Cats'' ''nsubj'' ''cat'' [word ''Cats''],
                 Token ''sleep'' ''ROOT'' ''sleep'' [word ''Cats'', word ''sleep'']],
       root = Token ''sleep'' ''ROOT'' ''sleep'' [word ''Cats'', word ''sleep'']\<rparr>]
   = Inr []"
  by (rule extract_degenerate [THEN conjunct2, rule_format])
     (auto simp: subjects_def objects_def)

section \<open>When chunking and extraction raise\<close>

text \<open>
  Claim C4, as the code has it. A \<open>chunk_size\<close> of zero makes \<open>range\<close> raise \<open>ValueError\<close>
  for every text, before the parser is called. A negative one gives an empty range:
  chunking returns normally with no chunks, and the function returns no triples. A
  positive one never makes the chunking raise. The size is not the only condition on the
  shape of the data under which the function raises: when a sentence has a subject and
  an object and the provenance lacks \<open>'title'\<close>, or has it and lacks \<open>'url'\<close>, building
  the first triple raises \<open>KeyError\<close>. With a positive size, a parser that returns for
  every chunk and a provenance that holds both keys, the function returns normally.
\<close>

theorem chunks_raises:
  "(chunk_size = 0 \<longrightarrow>
      chunks text chunk_size = Inl ValueError
      \<and> create_triples_from_text nlp text paper_info chunk_size = Inl ValueError)
   \<and> (chunk_size < 0 \<longrightarrow>
      chunks text chunk_size = Inr []
      \<and> create_triples_from_text nlp text paper_info chunk_size = Inr [])
   \<and> (0 < chunk_size \<longrightarrow> (\<exists>cs. chunks text chunk_size = Inr cs))
   \<and> (0 < chunk_size \<and> (\<forall>chunk. \<exists>sents. nlp chunk = Inr sents)
        \<and> paper_info ''title'' = Some t \<and> paper_info ''url'' = Some u \<longrightarrow>
      (\<exists>triples. create_triples_from_text nlp text paper_info chunk_size = Inr triples))
   \<and> (paper_info ''title'' = None \<and> subjects sent \<noteq> [] \<and> objects sent \<noteq> [] \<longrightarrow>
      extract_triples paper_info (sent # rest) = Inl (KeyError ''title''))
   \<and> (paper_info ''title'' = Some t \<and> paper_info ''url'' = None
        \<and> subjects sent \<noteq> [] \<and> objects sent \<noteq> [] \<longrightarrow>
      extract_triples paper_info (sent # rest) = Inl (KeyError ''url''))"
proof -
  have a: "chunk_size = 0 \<longrightarrow>
      chunks text chunk_size = Inl ValueError
      \<and> create_triples_from_text nlp text paper_info chunk_size = Inl ValueError"
    by (simp add: create_triples_from_text_def chunks_def py_range_def)
  have b: "chunk_size < 0 \<longrightarrow>
      chunks text chunk_size = Inr []
      \<and> create_triples_from_text nlp text paper_info chunk_size = Inr []"
    by (simp add: create_triples_from_text_def chunks_def py_range_def range_down_nonpos)
  have c: "0 < chunk_size \<longrightarrow> (\<exists>cs. chunks text chunk_size = Inr cs)"
    by (simp add: chunks_pos)
  have d: "0 < chunk_size \<and> (\<forall>chunk. \<exists>sents. nlp chunk = Inr sents)
        \<and> paper_info ''title'' = Some t \<and> paper_info ''url'' = Some u \<longrightarrow>
      (\<exists>triples. create_triples_from_text nlp text paper_info chunk_size = Inr triples)"
    using create_triples_total by blast
  have e: "paper_info ''title'' = None \<and> subjects sent \<noteq> [] \<and> objects sent \<noteq> [] \<longrightarrow>
      extract_triples paper_info (sent # rest) = Inl (KeyError ''title'')"
  proof (intro impI)
    assume h: "paper_info ''title'' = None \<and> subjects sent \<noteq> [] \<and> objects sent \<noteq> []"
    then have "sentence_triples paper_info sent = Inl (KeyError ''title'')"
      by (intro sentence_triples_raises make_triple_no_title) simp_all
    then show "extract_triples paper_info (sent # rest) = Inl (KeyError ''title'')"
      by (simp add: extract_triples_def)
  qed
  have f: "paper_info ''title'' = Some t \<and> paper_info ''url'' = None
        \<and> subjects sent \<noteq> [] \<and> objects sent \<noteq> [] \<longrightarrow>
      extract_triples paper_info (sent # rest) = Inl (KeyError ''url'')"
  proof (intro impI)
    assume h: "paper_info ''title'' = Some t \<and> paper_info ''url'' = None
        \<and> subjects sent \<noteq> [] \<and> objects sent \<noteq> []"
    then have "sentence_triples paper_info sent = Inl (KeyError ''url'')"
      by (intro sentence_triples_raises make_triple_no_url [of _ t]) simp_all
    then show "extract_triples paper_info (sent # rest) = Inl (KeyError ''url'')"
      by (simp add: extract_triples_def)
  qed
  show ?thesis
    using a b c d e f by blast
qed

theorem chunks_raises_witness:
  "chunks ''abc'' 0 = Inl ValueError
   \<and> create_triples_from_text (\<lambda>chunk. Inr [example_sentence]) ''abc'' example_info 0
     = Inl ValueError
   \<and> chunks ''abc'' (- 2) = Inr []
   \<and> create_triples_from_text (\<lambda>chunk. Inr [example_sentence]) ''abc'' example_info (- 2)
     = Inr []
   \<and> (\<exists>cs. chunks ''abc'' 2 = Inr cs)
   \<and> (\<exists>triples. create_triples_from_text (\<lambda>chunk. Inr [example_sentence]) ''abc''
                   example_info 2 = Inr triples)
   \<and> extract_triples Map.empty [example_sentence] = Inl (KeyError ''title'')
   \<and> extract_triples [''title'' \<mapsto> ''A paper''] [example_sentence] = Inl (KeyError ''url'')"
proof -
  have s: "subjects example_sentence \<noteq> []" and ob: "objects example_sentence \<noteq> []"
    by (simp_all add: example_subjects example_objects)
  have p: "\<forall>chunk. \<exists>sents. (\<lambda>chunk. Inr [example_sentence]) chunk
                              = (Inr sents :: exn + sentence list)"
    by simp
  have i: "example_info ''title'' = Some ''A paper''"
    "example_info ''url'' = Some ''http://arxiv.org/abs/1''"
    by (simp_all add: example_info_def)
  show ?thesis
    using s ob p i
      chunks_raises [of 0 "''abc''" "\<lambda>chunk. Inr [example_sentence]" example_info]
      chunks_raises [of "- 2" "''abc''" "\<lambda>chunk. Inr [example_sentence]" example_info]
      chunks_raises [of 2 "''abc''" "\<lambda>chunk. Inr [example_sentence]" example_info
        "''A paper''" "''http://arxiv.org/abs/1''"]
      chunks_raises [of 2 "''abc''" "\<lambda>chunk. Inr [example_sentence]" Map.empty
        "''A paper''" "''http://arxiv.org/abs/1''" example_sentence "[]"]
      chunks_raises [of 2 "''abc''" "\<lambda>chunk. Inr [example_sentence]"
        "[''title'' \<mapsto> ''A paper'']"
        "''A paper''" "''http://arxiv.org/abs/1''" example_sentence "[]"]
    by simp
qed

text \<open>
  The claim as the specification states it fails in both halves: a negative size drops
  the text without any error, and with a valid size a provenance without a title makes
  the extraction raise.
\<close>

theorem chunks_negative_counterexample:
  "chunks ''abc'' (- 1) = Inr []
   \<and> create_triples_from_text (\<lambda>chunk. Inr [example_sentence]) ''abc'' Map.empty 50000
     = Inl (KeyError ''title'')"
proof -
  have "chunks ''abc'' (- 1) = Inr []"
    by (simp add: chunks_def py_range_def range_down_nonpos)
  moreover have "chunks ''abc'' 50000 = Inr [''abc'']"
    by code_simp
  moreover have "sentence_triples Map.empty example_sentence = Inl (KeyError ''title'')"
    by (intro sentence_triples_raises make_triple_no_title)
       (simp_all add: example_subjects example_objects)
  ultimately show ?thesis
    by (simp add: create_triples_from_text_def extract_triples_def)
qed

section \<open>Facts about the persisted collection\<close>

lemma encodable_triples:
  "encodable (JArray (map triple_json b))"
  by (induction b) (simp_all add: triple_json_def)

lemma encodable_append:
  assumes "encodable (JArray xs)"
  shows "encodable (JArray (xs @ map triple_json b))"
  using assms encodable_triples [of b] by simp

lemma append_to_missing:
  assumes "b \<noteq> []"
  shows "append_triples_to_json (Dir None) b
         = ([Exists, Write], Inr (Dir (Some (Document (JArray (map triple_json b))))))"
  using assms encodable_triples [of b]
  by (simp add: append_triples_to_json_def read_existing_def list_extend_def json_dump_def)

lemma append_to_malformed:
  assumes "b \<noteq> []"
  shows "append_triples_to_json (Dir (Some Malformed)) b
         = ([Exists, Read, Write], Inr (Dir (Some (Document (JArray (map triple_json b))))))"
  using assms encodable_triples [of b]
  by (simp add: append_triples_to_json_def read_existing_def list_extend_def json_dump_def
      json_load_def)

lemma append_to_unloadable:
  assumes "b \<noteq> []" and "json_load f = Inl e" and "e \<noteq> JSONDecodeError"
  shows "append_triples_to_json (Dir (Some f)) b = ([Exists, Read], Inl (e, Dir (Some f)))"
  using assms by (simp add: append_triples_to_json_def read_existing_def)

lemma append_without_directory:
  assumes "b \<noteq> []"
  shows "append_triples_to_json NoDir b = ([Exists, Write], Inl (FileNotFoundError, NoDir))"
  using assms
  by (simp add: append_triples_to_json_def read_existing_def list_extend_def json_dump_def)

lemma append_to_array:
  assumes "b \<noteq> []" and "encodable (JArray xs)"
  shows "append_triples_to_json (Dir (Some (Document (JArray xs)))) b
         = ([Exists, Read, Write],
            Inr (Dir (Some (Document (JArray (xs @ map triple_json b))))))"
  using assms(1) encodable_append [OF assms(2), of b]
  by (simp add: append_triples_to_json_def read_existing_def list_extend_def json_dump_def
      json_load_def)

lemma append_nothing:
  "append_triples_to_json st [] = ([], Inr st)"
  by (simp add: append_triples_to_json_def)

lemma merge_all_array:
  assumes "encodable (JArray xs)"
  shows "merge_all (Dir (Some (Document (JArray xs)))) bs
         = Inr (Dir (Some (Document (JArray (xs @ map triple_json (concat bs))))))"
  using assms
proof (induction bs arbitrary: xs)
  case Nil
  then show ?case by simp
next
  case (Cons b bs)
  show ?case
  proof (cases "b = []")
    case True
    then show ?thesis
      using Cons by (simp add: append_nothing)
  next
    case False
    have "encodable (JArray (xs @ map triple_json b))"
      using Cons.prems by (rule encodable_append)
    then have "merge_all (Dir (Some (Document (JArray (xs @ map triple_json b))))) bs
               = Inr (Dir (Some (Document
                   (JArray ((xs @ map triple_json b) @ map triple_json (concat bs))))))"
      by (rule Cons.IH)
    then show ?thesis
      using False Cons.prems by (simp add: append_to_array)
  qed
qed

lemma merge_all_missing:
  "merge_all (Dir None) bs
   = Inr (if concat bs = [] then Dir None
          else Dir (Some (Document (JArray (map triple_json (concat bs))))))"
proof (induction bs)
  case Nil
  then show ?case by simp
next
  case (Cons b bs)
  show ?case
  proof (cases "b = []")
    case True
    then show ?thesis using Cons by (simp add: append_nothing)
  next
    case False
    then show ?thesis
      using merge_all_array [OF encodable_triples, of b bs]
      by (simp add: append_to_missing)
  qed
qed

lemma clear_result:
  "clear st = Dir None"
  by (simp add: clear_def makedirs_def split: store.splits option.splits)

lemma load_all_without_file:
  "load_all (Dir None) results = Inr results"
  by (simp add: load_all_def)

section \<open>The persisted collection: merging, clearing, loading\<close>

text \<open>
  Claim C3. Start from a cleared store and merge any number of non-empty batches in
  order. Every merge returns normally. Afterwards the collection, as the store reads it
  (lines 101--107), is exactly the list of the batches' triples, concatenated in order,
  each a JSON object with the five fields of the triple; with at least one batch the
  load of lines 187--189 puts that same list into the session, and with none it leaves a
  session without results as it is. An empty batch merged at any point of the sequence
  gives the same store.
\<close>

theorem merge_all_concat:
  assumes "\<forall>b \<in> set bs. b \<noteq> []"
  shows "\<exists>st'. merge_all (clear st) bs = Inr st'
           \<and> snd (read_existing st')
             = Inr (JArray (map (\<lambda>t. JObject [(''subject'', JString (subject t)),
                                                 (''predicate'', JString (predicate t)),
                                                 (''object'', JString (object t)),
                                                 (''source_title'', JString (source_title t)),
                                                 (''source_url'', JString (source_url t))])
                                (concat bs)))
           \<and> (bs \<noteq> [] \<longrightarrow>
                load_all st' results
                = Inr (Some (JArray (map (\<lambda>t. JObject [(''subject'', JString (subject t)),
                                                 (''predicate'', JString (predicate t)),
                                                 (''object'', JString (object t)),
                                                 (''source_title'', JString (source_title t)),
                                                 (''source_url'', JString (source_url t))])
                                (concat bs)))))
           \<and> (bs = [] \<longrightarrow> load_all st' None = Inr None)
           \<and> (\<forall>xs ys. xs @ ys = bs \<longrightarrow> merge_all (clear st) (xs @ [] # ys) = Inr st')"
proof -
  let ?st' = "if concat bs = [] then Dir None
              else Dir (Some (Document (JArray (map triple_json (concat bs)))))"
  have tj: "triple_json = (\<lambda>t. JObject [(''subject'', JString (subject t)),
                                          (''predicate'', JString (predicate t)),
                                          (''object'', JString (object t)),
                                          (''source_title'', JString (source_title t)),
                                          (''source_url'', JString (source_url t))])"
    by (rule ext) (simp add: triple_json_def)
  have ne: "bs \<noteq> [] \<longrightarrow> concat bs \<noteq> []"
    using assms by (cases bs) auto
  have m: "merge_all (clear st) bs = Inr ?st'"
    by (simp only: clear_result merge_all_missing)
  have r: "snd (read_existing ?st') = Inr (JArray (map triple_json (concat bs)))"
    by (simp add: read_existing_def json_load_def)
  have l: "bs \<noteq> [] \<longrightarrow> load_all ?st' results = Inr (Some (JArray (map triple_json (concat bs))))"
    using ne by (auto simp: load_all_def json_load_def)
  have l0: "bs = [] \<longrightarrow> load_all ?st' None = Inr None"
    by (simp add: load_all_def)
  have e: "\<forall>xs ys. xs @ ys = bs \<longrightarrow> merge_all (clear st) (xs @ [] # ys) = Inr ?st'"
  proof (intro allI impI)
    fix xs ys assume "xs @ ys = bs"
    then have "concat (xs @ [] # ys) = concat bs"
      by auto
    then show "merge_all (clear st) (xs @ [] # ys) = Inr ?st'"
      by (simp only: clear_result merge_all_missing)
  qed
  show ?thesis
    using m r l l0 e unfolding tj by blast
qed

theorem merge_all_concat_witness:
  "merge_all (clear (Dir (Some Malformed)))
     [[\<lparr>subject = ''Researchers'', predicate = ''propose'', object = ''a model'',
        source_title = ''P1'', source_url = ''U1''\<rparr>],
      [\<lparr>subject = ''The model'', predicate = ''improve'', object = ''accuracy'',
        source_title = ''P2'', source_url = ''U2''\<rparr>,
       \<lparr>subject = ''We'', predicate = ''use'', object = ''it'',
        source_title = ''P2'', source_url = ''U2''\<rparr>]]
   = Inr (Dir (Some (Document (JArray
       [JObject [(''subject'', JString ''Researchers''), (''predicate'', JString ''propose''),
                 (''object'', JString ''a model''), (''source_title'', JString ''P1''),
                 (''source_url'', JString ''U1'')],
        JObject [(''subject'', JString ''The model''), (''predicate'', JString ''improve''),
                 (''object'', JString ''accuracy''), (''source_title'', JString ''P2''),
                 (''source_url'', JString ''U2'')],
        JObject [(''subject'', JString ''We''), (''predicate'', JString ''use''),
                 (''object'', JString ''it''), (''source_title'', JString ''P2''),
                 (''source_url'', JString ''U2'')]]))))
   \<and> load_all (Dir (Some (Document (JArray
       [JObject [(''subject'', JString ''Researchers''), (''predicate'', JString ''propose''),
                 (''object'', JString ''a model''), (''source_title'', JString ''P1''),
                 (''source_url'', JString ''U1'')],
        JObject [(''subject'', JString ''The model''), (''predicate'', JString ''improve''),
                 (''object'', JString ''accuracy''), (''source_title'', JString ''P2''),
                 (''source_url'', JString ''U2'')],
        JObject [(''subject'', JString ''We''), (''predicate'', JString ''use''),
                 (''object'', JString ''it''), (''source_title'', JString ''P2''),
                 (''source_url'', JString ''U2'')]])))) None
     = Inr (Some (JArray
       [JObject [(''subject'', JString ''Researchers''), (''predicate'', JString ''propose''),
                 (''object'', JString ''a model''), (''source_title'', JString ''P1''),
                 (''source_url'', JString ''U1'')],
        JObject [(''subject'', JString ''The model''), (''predicate'', JString ''improve''),
                 (''object'', JString ''accuracy''), (''source_title'', JString ''P2''),
                 (''source_url'', JString ''U2'')],
        JObject [(''subject'', JString ''We''), (''predicate'', JString ''use''),
                 (''object'', JString ''it''), (''source_title'', JString ''P2''),
                 (''source_url'', JString ''U2'')]]))
   \<and> merge_all (clear (Dir (Some Malformed)))
     [[\<lparr>subject = ''Researchers'', predicate = ''propose'', object = ''a model'',
        source_title = ''P1'', source_url = ''U1''\<rparr>],
      [],
      [\<lparr>subject = ''The model'', predicate = ''improve'', object = ''accuracy'',
        source_title = ''P2'', source_url = ''U2''\<rparr>,
       \<lparr>subject = ''We'', predicate = ''use'', object = ''it'',
        source_title = ''P2'', source_url = ''U2''\<rparr>]]
     = merge_all (clear (Dir (Some Malformed)))
     [[\<lparr>subject = ''Researchers'', predicate = ''propose'', object = ''a model'',
        source_title = ''P1'', source_url = ''U1''\<rparr>],
      [\<lparr>subject = ''The model'', predicate = ''improve'', object = ''accuracy'',
        source_title = ''P2'', source_url = ''U2''\<rparr>,
       \<lparr>subject = ''We'', predicate = ''use'', object = ''it'',
        source_title = ''P2'', source_url = ''U2''\<rparr>]]"
proof -
  let ?t1 = "\<lparr>subject = ''Researchers'', predicate = ''propose'', object = ''a model'',
              source_title = ''P1'', source_url = ''U1''\<rparr>"
  let ?t2 = "\<lparr>subject = ''The model'', predicate = ''improve'', object = ''accuracy'',
              source_title = ''P2'', source_url = ''U2''\<rparr>"
  let ?t3 = "\<lparr>subject = ''We'', predicate = ''use'', object = ''it'',
              source_title = ''P2'', source_url = ''U2''\<rparr>"
  let ?bs = "[[?t1], [?t2, ?t3]]"
  have h: "\<forall>b \<in> set ?bs. b \<noteq> []" and n: "?bs \<noteq> []"
    by simp_all
  obtain st' where a: "merge_all (clear (Dir (Some Malformed))) ?bs = Inr st'"
    and b: "?bs \<noteq> [] \<longrightarrow>
            load_all st' None
            = Inr (Some (JArray (map (\<lambda>t. JObject [(''subject'', JString (subject t)),
                                                 (''predicate'', JString (predicate t)),
                                                 (''object'', JString (object t)),
                                                 (''source_title'', JString (source_title t)),
                                                 (''source_url'', JString (source_url t))])
                                (concat ?bs))))"
    and c: "\<forall>xs ys. xs @ ys = ?bs \<longrightarrow>
              merge_all (clear (Dir (Some Malformed))) (xs @ [] # ys) = Inr st'"
    using merge_all_concat [OF h, of "Dir (Some Malformed)" None] by blast
  have m: "merge_all (clear (Dir (Some Malformed))) ?bs
           = Inr (Dir (Some (Document (JArray (map triple_json (concat ?bs))))))"
    by (simp only: clear_result merge_all_missing) simp
  have st: "st' = Dir (Some (Document (JArray (map triple_json (concat ?bs)))))"
    using a m by simp
  have "[[?t1]] @ [[?t2, ?t3]] = ?bs"
    by simp
  then have "merge_all (clear (Dir (Some Malformed))) ([[?t1]] @ [] # [[?t2, ?t3]]) = Inr st'"
    using c by blast
  then have c': "merge_all (clear (Dir (Some Malformed))) [[?t1], [], [?t2, ?t3]] = Inr st'"
    by (simp only: append.simps)
  show ?thesis
    using a b c' n unfolding st by (simp add: triple_json_def)
qed

text \<open>
  Claim C5, as the code has it. When the directory exists and there is no file, or the
  file's text is not JSON (\<open>json.load\<close> raises \<open>JSONDecodeError\<close>), merging a non-empty
  batch returns normally and the file afterwards holds exactly that batch, each triple a
  JSON object with its five fields. When \<open>json.load\<close> raises anything else on the file
  (\<open>UnicodeDecodeError\<close> for bytes that are not UTF-8), the merge raises that exception
  after the read; when the directory does not exist, opening the file for writing raises
  \<open>FileNotFoundError\<close>; in both cases the store is left as it was.
\<close>

theorem merge_unreadable:
  assumes "new_triples \<noteq> []"
  shows "(st = Dir None \<or> st = Dir (Some Malformed) \<longrightarrow>
            snd (append_triples_to_json st new_triples)
            = Inr (Dir (Some (Document (JArray
                (map (\<lambda>t. JObject [(''subject'', JString (subject t)),
                                     (''predicate'', JString (predicate t)),
                                     (''object'', JString (object t)),
                                     (''source_title'', JString (source_title t)),
                                     (''source_url'', JString (source_url t))])
                     new_triples))))))
         \<and> (json_load f = Inl e \<and> e \<noteq> JSONDecodeError \<longrightarrow>
              append_triples_to_json (Dir (Some f)) new_triples
              = ([Exists, Read], Inl (e, Dir (Some f))))
         \<and> append_triples_to_json NoDir new_triples
           = ([Exists, Write], Inl (FileNotFoundError, NoDir))"
proof -
  have tj: "triple_json = (\<lambda>t. JObject [(''subject'', JString (subject t)),
                                          (''predicate'', JString (predicate t)),
                                          (''object'', JString (object t)),
                                          (''source_title'', JString (source_title t)),
                                          (''source_url'', JString (source_url t))])"
    by (rule ext) (simp add: triple_json_def)
  show ?thesis
    using assms append_to_unloadable [OF assms, of f e]
    unfolding tj [symmetric]
    by (auto simp: append_to_missing append_to_malformed append_without_directory)
qed

theorem merge_unreadable_witness:
  "snd (append_triples_to_json (Dir None)
          [\<lparr>subject = ''We'', predicate = ''use'', object = ''it'',
            source_title = ''P2'', source_url = ''U2''\<rparr>])
     = Inr (Dir (Some (Document (JArray
         [JObject [(''subject'', JString ''We''), (''predicate'', JString ''use''),
                   (''object'', JString ''it''), (''source_title'', JString ''P2''),
                   (''source_url'', JString ''U2'')]]))))
   \<and> snd (append_triples_to_json (Dir (Some Malformed))
          [\<lparr>subject = ''We'', predicate = ''use'', object = ''it'',
            source_title = ''P2'', source_url = ''U2''\<rparr>])
     = Inr (Dir (Some (Document (JArray
         [JObject [(''subject'', JString ''We''), (''predicate'', JString ''use''),
                   (''object'', JString ''it''), (''source_title'', JString ''P2''),
                   (''source_url'', JString ''U2'')]]))))
   \<and> append_triples_to_json (Dir (Some (Rejected ValueError)))
          [\<lparr>subject = ''We'', predicate = ''use'', object = ''it'',
            source_title = ''P2'', source_url = ''U2''\<rparr>]
     = ([Exists, Read], Inl (ValueError, Dir (Some (Rejected ValueError))))
   \<and> append_triples_to_json NoDir
          [\<lparr>subject = ''We'', predicate = ''use'', object = ''it'',
            source_title = ''P2'', source_url = ''U2''\<rparr>]
     = ([Exists, Write], Inl (FileNotFoundError, NoDir))"
proof -
  let ?b = "[\<lparr>subject = ''We'', predicate = ''use'', object = ''it'',
               source_title = ''P2'', source_url = ''U2''\<rparr>]"
  have h: "?b \<noteq> []" by simp
  have l: "json_load (Rejected ValueError) = Inl ValueError \<and> ValueError \<noteq> JSONDecodeError"
    by (simp add: json_load_def)
  show ?thesis
    using merge_unreadable [OF h, of "Dir None" Undecodable UnicodeDecodeError]
      merge_unreadable [OF h, of "Dir (Some Malformed)" "Rejected ValueError" ValueError] l
    by simp
qed

text \<open>
  The claim as the specification states it covers every unreadable file; on one that is
  not UTF-8 the merge raises after the read, and nothing is written.
\<close>

theorem merge_undecodable_counterexample:
  "append_triples_to_json (Dir (Some Undecodable))
     [\<lparr>subject = ''We'', predicate = ''use'', object = ''it'',
       source_title = ''P2'', source_url = ''U2''\<rparr>]
   = ([Exists, Read], Inl (UnicodeDecodeError, Dir (Some Undecodable)))"
  by (simp add: append_triples_to_json_def read_existing_def json_load_def)

text \<open>
  Claim C7. Whatever the store is (no directory, no file, a file that cannot be read, or
  a file holding any JSON value), merging an empty batch makes no access to the file at
  all and leaves the store as it was.
\<close>

theorem merge_empty_noop:
  "append_triples_to_json st [] = ([], Inr st)"
  by (simp add: append_triples_to_json_def)

text \<open>
  Claim C8. Whatever the store was before, after clearing the directory exists and the
  file does not; the collection as the store then reads it (lines 101--107) is the empty
  list, and the load of lines 187--189 finds nothing to load, so a session without
  results stays without results.
\<close>

theorem clear_then_load:
  "clear st = Dir None
   \<and> snd (read_existing (clear st)) = Inr (JArray [])
   \<and> load_all (clear st) None = Inr None"
  by (simp add: clear_result read_existing_def load_all_def)

section \<open>One paper never fails\<close>

lemma example_pdf_path:
  "pdf_path example_paper = ''./papers/What is a model.pdf''"
  by code_simp

lemma example_text:
  "extract_text_from_pdf [''./papers/What is a model.pdf'' \<mapsto> Inr [''Alice told Bob'', ''that the cats chase mice.'']]
     ''./papers/What is a model.pdf'' = ''Alice told Bob that the cats chase mice.''"
  by code_simp

lemma example_parse_fails:
  "create_triples_from_text (\<lambda>chunk. Inl (External ''parser failed''))
     ''Alice told Bob that the cats chase mice.'' (paper_info_of example_paper) 50000
   = Inl (External ''parser failed'')"
  by code_simp

lemma example_parse_succeeds:
  "create_triples_from_text (\<lambda>chunk. Inr [example_sentence])
     ''Alice told Bob that the cats chase mice.'' (paper_info_of example_paper) 50000
   = Inr [\<lparr>subject = ''Alice'', predicate = ''tell'', object = ''Bob'',
            source_title = ''What is a model?'', source_url = ''http://arxiv.org/abs/1''\<rparr>,
          \<lparr>subject = ''Alice'', predicate = ''tell'', object = ''mice'',
            source_title = ''What is a model?'', source_url = ''http://arxiv.org/abs/1''\<rparr>,
          \<lparr>subject = ''the cats'', predicate = ''tell'', object = ''Bob'',
            source_title = ''What is a model?'', source_url = ''http://arxiv.org/abs/1''\<rparr>,
          \<lparr>subject = ''the cats'', predicate = ''tell'', object = ''mice'',
            source_title = ''What is a model?'', source_url = ''http://arxiv.org/abs/1''\<rparr>]"
  by code_simp

text \<open>
  Claim C10. \<open>process_single_paper\<close> always returns a list of triples, and the list is
  empty whenever its body raises. Case by case: when the download raises; when the file,
  downloaded or already there, cannot be opened or read as a PDF (then
  \<open>extract_text_from_pdf\<close> returns the empty text and the body returns the empty list
  without raising); when the parser or the extraction raises. When nothing fails, the
  result is what \<open>create_triples_from_text\<close> returns. The exceptions are those of type
  \<open>exn\<close>, all derived from \<open>Exception\<close>, which is what the handler catches.
\<close>

theorem process_single_paper_returns:
  "(\<exists>fs' triples. process_single_paper nlp download fs p = (fs', Inr triples)
      \<and> (\<forall>e. snd (paper_body nlp download fs p) = Inl e \<longrightarrow> triples = []))
   \<and> (fs (pdf_path p) = None \<and> download p = Inl e1 \<longrightarrow>
        process_single_paper nlp download fs p = (fs, Inr []))
   \<and> (fs (pdf_path p) = None \<and> download p = Inr (Inl e2) \<longrightarrow>
        process_single_paper nlp download fs p = (fs(pdf_path p \<mapsto> Inl e2), Inr []))
   \<and> (fs (pdf_path p) = Some (Inl e3) \<longrightarrow>
        process_single_paper nlp download fs p = (fs, Inr []))
   \<and> (fs (pdf_path p) = Some (Inr pages)
        \<and> create_triples_from_text nlp (extract_text_from_pdf fs (pdf_path p))
             (paper_info_of p) 50000 = Inl e4 \<longrightarrow>
        process_single_paper nlp download fs p = (fs, Inr []))
   \<and> (fs (pdf_path p) = Some (Inr pages)
        \<and> extract_text_from_pdf fs (pdf_path p) \<noteq> []
        \<and> create_triples_from_text nlp (extract_text_from_pdf fs (pdf_path p))
             (paper_info_of p) 50000 = Inr triples \<longrightarrow>
        process_single_paper nlp download fs p = (fs, Inr triples))"
proof -
  have a: "\<exists>fs' triples. process_single_paper nlp download fs p = (fs', Inr triples)
      \<and> (\<forall>e. snd (paper_body nlp download fs p) = Inl e \<longrightarrow> triples = [])"
    by (cases "paper_body nlp download fs p")
       (auto simp: process_single_paper_def split: sum.splits)
  have b: "fs (pdf_path p) = None \<and> download p = Inl e1 \<longrightarrow>
        process_single_paper nlp download fs p = (fs, Inr [])"
    by (simp add: process_single_paper_def paper_body_def)
  have c: "fs (pdf_path p) = None \<and> download p = Inr (Inl e2) \<longrightarrow>
        process_single_paper nlp download fs p = (fs(pdf_path p \<mapsto> Inl e2), Inr [])"
    by (simp add: process_single_paper_def paper_body_def extract_text_from_pdf_def
        open_pdf_def)
  have d: "fs (pdf_path p) = Some (Inl e3) \<longrightarrow>
        process_single_paper nlp download fs p = (fs, Inr [])"
    by (simp add: process_single_paper_def paper_body_def extract_text_from_pdf_def
        open_pdf_def)
  have e: "fs (pdf_path p) = Some (Inr pages)
        \<and> create_triples_from_text nlp (extract_text_from_pdf fs (pdf_path p))
             (paper_info_of p) 50000 = Inl e4 \<longrightarrow>
        process_single_paper nlp download fs p = (fs, Inr [])"
    by (simp add: process_single_paper_def paper_body_def Let_def)
  have f: "fs (pdf_path p) = Some (Inr pages)
        \<and> extract_text_from_pdf fs (pdf_path p) \<noteq> []
        \<and> create_triples_from_text nlp (extract_text_from_pdf fs (pdf_path p))
             (paper_info_of p) 50000 = Inr triples \<longrightarrow>
        process_single_paper nlp download fs p = (fs, Inr triples)"
    by (simp add: process_single_paper_def paper_body_def Let_def)
  show ?thesis
    using a b c d e f by blast
qed

theorem process_single_paper_returns_witness:
  "snd (process_single_paper (\<lambda>chunk. Inr [example_sentence])
          (\<lambda>p. Inl (External ''connection reset'')) Map.empty example_paper) = Inr []
   \<and> snd (process_single_paper (\<lambda>chunk. Inr [example_sentence])
          (\<lambda>p. Inr (Inl (External ''cannot open broken document''))) Map.empty example_paper)
     = Inr []
   \<and> snd (process_single_paper (\<lambda>chunk. Inr [example_sentence])
          (\<lambda>p. Inl (External ''connection reset''))
          [''./papers/What is a model.pdf'' \<mapsto> Inl (External ''cannot open broken document'')]
          example_paper)
     = Inr []
   \<and> snd (process_single_paper (\<lambda>chunk. Inl (External ''parser failed''))
          (\<lambda>p. Inl (External ''connection reset''))
          [''./papers/What is a model.pdf''
             \<mapsto> Inr [''Alice told Bob'', ''that the cats chase mice.'']]
          example_paper)
     = Inr []
   \<and> snd (process_single_paper (\<lambda>chunk. Inr [example_sentence])
          (\<lambda>p. Inl (External ''connection reset''))
          [''./papers/What is a model.pdf''
             \<mapsto> Inr [''Alice told Bob'', ''that the cats chase mice.'']]
          example_paper)
     = Inr [\<lparr>subject = ''Alice'', predicate = ''tell'', object = ''Bob'',
              source_title = ''What is a model?'', source_url = ''http://arxiv.org/abs/1''\<rparr>,
            \<lparr>subject = ''Alice'', predicate = ''tell'', object = ''mice'',
              source_title = ''What is a model?'', source_url = ''http://arxiv.org/abs/1''\<rparr>,
            \<lparr>subject = ''the cats'', predicate = ''tell'', object = ''Bob'',
              source_title = ''What is a model?'', source_url = ''http://arxiv.org/abs/1''\<rparr>,
            \<lparr>subject = ''the cats'', predicate = ''tell'', object = ''mice'',
              source_title = ''What is a model?'', source_url = ''http://arxiv.org/abs/1''\<rparr>]"
proof -
  let ?ok = "\<lambda>chunk. (Inr [example_sentence] :: exn + sentence list)"
  let ?bad = "\<lambda>chunk. (Inl (External ''parser failed'') :: exn + sentence list)"
  let ?down = "\<lambda>p. (Inl (External ''connection reset'') :: exn + pdf)"
  let ?broken = "\<lambda>p. (Inr (Inl (External ''cannot open broken document'')) :: exn + pdf)"
  let ?bad_fs = "[''./papers/What is a model.pdf''
                    \<mapsto> (Inl (External ''cannot open broken document'') :: pdf)]"
  let ?fs = "[''./papers/What is a model.pdf''
                \<mapsto> (Inr [''Alice told Bob'', ''that the cats chase mice.''] :: pdf)]"
  note path = example_pdf_path
  show ?thesis
    using process_single_paper_returns [of ?ok ?down Map.empty example_paper
        "External ''connection reset''"]
      process_single_paper_returns [of ?ok ?broken Map.empty example_paper _
        "External ''cannot open broken document''"]
      process_single_paper_returns [of ?ok ?down ?bad_fs example_paper _ _
        "External ''cannot open broken document''"]
      process_single_paper_returns [of ?bad ?down ?fs example_paper _ _ _
        "[''Alice told Bob'', ''that the cats chase mice.'']" "External ''parser failed''"]
      process_single_paper_returns [of ?ok ?down ?fs example_paper _ _ _
        "[''Alice told Bob'', ''that the cats chase mice.'']" _
        "[\<lparr>subject = ''Alice'', predicate = ''tell'', object = ''Bob'',
              source_title = ''What is a model?'', source_url = ''http://arxiv.org/abs/1''\<rparr>,
            \<lparr>subject = ''Alice'', predicate = ''tell'', object = ''mice'',
              source_title = ''What is a model?'', source_url = ''http://arxiv.org/abs/1''\<rparr>,
            \<lparr>subject = ''the cats'', predicate = ''tell'', object = ''Bob'',
              source_title = ''What is a model?'', source_url = ''http://arxiv.org/abs/1''\<rparr>,
            \<lparr>subject = ''the cats'', predicate = ''tell'', object = ''mice'',
              source_title = ''What is a model?'', source_url = ''http://arxiv.org/abs/1''\<rparr>]"]
    by (simp add: path example_text example_parse_fails example_parse_succeeds)
qed

end
